theory Spec2Isabelle
  imports Complex_Main "HOL-Library.Monad_Syntax" "HOL-Library.AList"
begin

section \<open>The engagement scorer of engaged-papers (lib/scoring.ts)\<close>

text \<open>
  The scorer is embedded from the revision of \<^verbatim>\<open>computeEngagementScore\<close> that carries the
  whole cascade (citations, recency, time of day, position).

  Numbers. A TypeScript \<^verbatim>\<open>number\<close> is modelled by an exact rational. An operation whose
  JavaScript result would not be a finite number returns \<open>None\<close>: a division whose divisor
  is zero (\<^verbatim>\<open>NaN\<close> or an infinity in JavaScript) and \<^verbatim>\<open>Math.max()\<close> / \<^verbatim>\<open>Math.min()\<close>
  spread over an empty array (an infinity in JavaScript). Rounding of doubles is not
  modelled. A division by a non-zero literal (\<^verbatim>\<open>/ 60\<close>, \<^verbatim>\<open>/ 24\<close>,
  \<^verbatim>\<open>/ (1000 * 60 * 60)\<close>) is written directly.

  Dates. \<^verbatim>\<open>published_at\<close> is a string or null in the source; the test
  \<^verbatim>\<open>if (m.published_at)\<close> separates the absent values (null, undefined, the empty
  string) from the present ones, and \<^verbatim>\<open>new Date(s).getTime()\<close> turns a present one into
  milliseconds since the epoch. The model keeps \<open>None\<close> for an absent value and
  \<open>Some t\<close> for a present one that parses to the instant \<open>t\<close>. The clock reading
  \<^verbatim>\<open>new Date()\<close> taken once per call is the parameter \<open>now\<close>; the local time zone used
  by \<^verbatim>\<open>getHours\<close> and \<^verbatim>\<open>getMinutes\<close> is the parameter \<open>tz\<close>, the offset from UTC in
  minutes at a given instant.
\<close>

type_synonym number = rat

subsection \<open>Data\<close>

text \<open>
  \<^verbatim>\<open>PaperMetric\<close> of lib/supabase.ts (its optional \<^verbatim>\<open>id\<close>, the key of the row, is the
  field \<open>metric_id\<close>), with the \<^verbatim>\<open>published_at\<close> that \<^verbatim>\<open>computeEngagementScoresForDate\<close> attaches to every
  metric before it calls the scorer.
\<close>

record PaperMetric =
  metric_id :: int
  paper_id :: string
  snapshot_date :: string
  downloads_total :: number
  downloads_7d :: number
  github_repo_count :: number
  engagement_score :: number
  published_at :: "int option"

subsection \<open>Library operations of JavaScript\<close>

definition js_div :: "number \<Rightarrow> number \<Rightarrow> number option" where
  "js_div a b = (if b = 0 then None else Some (a / b))"

fun Math_max :: "number list \<Rightarrow> number option" where
  "Math_max [] = None"
| "Math_max (x # xs) = Some (fold max xs x)"

fun Math_min :: "number list \<Rightarrow> number option" where
  "Math_min [] = None"
| "Math_min (x # xs) = Some (fold min xs x)"

text \<open>
  \<open>Math_max\<close> and \<open>Math_min\<close> give the value of a call on its list of arguments. An
  engine also bounds the number of arguments that one call may receive: a spread
  \<^verbatim>\<open>f(...array, x)\<close> that builds a longer list throws \<^verbatim>\<open>RangeError\<close>. The bound
  depends on the engine and is the parameter \<open>maxArgs\<close>.
\<close>

datatype js_failure = RangeError | NotFinite

definition spread :: "nat \<Rightarrow> 'a list \<Rightarrow> js_failure + 'a list" where
  "spread maxArgs args = (if maxArgs < length args then Inl RangeError else Inr args)"

text \<open>\<^verbatim>\<open>Array.prototype.findIndex\<close>: the first index whose element passes, or \<open>-1\<close>.\<close>

fun findIndex :: "('a \<Rightarrow> bool) \<Rightarrow> 'a list \<Rightarrow> int" where
  "findIndex P [] = - 1"
| "findIndex P (x # xs) =
     (if P x then 0 else (let i = findIndex P xs in if i < 0 then - 1 else i + 1))"

text \<open>
  \<^verbatim>\<open>Date.prototype.getHours\<close> and \<^verbatim>\<open>getMinutes\<close> of the instant \<open>t\<close> in local time
  (ECMAScript's HourFromTime and MinFromTime of \<open>LocalTime t\<close>; \<open>div\<close> and \<open>mod\<close> on
  \<open>int\<close> round down, as these do).
\<close>

definition getHours :: "(int \<Rightarrow> int) \<Rightarrow> int \<Rightarrow> int" where
  "getHours tz t = ((t + tz t * 60000) div 3600000) mod 24"

definition getMinutes :: "(int \<Rightarrow> int) \<Rightarrow> int \<Rightarrow> int" where
  "getMinutes tz t = ((t + tz t * 60000) div 60000) mod 60"

subsection \<open>normalize\<close>

text \<open>
  The function \<^verbatim>\<open>normalize\<close> of the source is \<open>normalize_value\<close> here.
  \<^verbatim>\<open>
  function normalize(value, min, max) {
    if (max === 0 || max === min) { return 0; }
    return (value - min) / (max - min);
  }
  \<close>
\<close>

definition normalize_value :: "number \<Rightarrow> number \<Rightarrow> number \<Rightarrow> number option" where
  "normalize_value val minv maxv =
     (if maxv = 0 \<or> maxv = minv then Some 0 else js_div (val - minv) (maxv - minv))"

subsection \<open>computeEngagementScore\<close>

text \<open>
  The recency score of one publication instant:
  \<^verbatim>\<open>hoursSincePublished = Math.max(0, (now - published) / (1000 * 60 * 60))\<close> and
  \<^verbatim>\<open>recencyScore = 1 / (1 + hoursSincePublished / 24)\<close>. The source writes this
  expression twice, in the loop over the batch and again for the current metric.
\<close>

definition recencyScore :: "int \<Rightarrow> int \<Rightarrow> number option" where
  "recencyScore now t =
     (let hoursSincePublished = max 0 (of_int (now - t) / (1000 * 60 * 60))
      in js_div 1 (1 + hoursSincePublished / 24))"

text \<open>
  The loop \<^verbatim>\<open>for (const m of allMetrics)\<close> that fills \<^verbatim>\<open>recencyScores\<close> and
  \<^verbatim>\<open>publishedDates\<close>; a metric without date contributes the score 0 and the date
  \<^verbatim>\<open>new Date(0)\<close>. (The source also computes \<^verbatim>\<open>daysSincePublished\<close> there and never
  uses it.)
\<close>

fun recency_loop :: "int \<Rightarrow> PaperMetric list \<Rightarrow> (number list \<times> int list) option" where
  "recency_loop now [] = Some ([], [])"
| "recency_loop now (m # ms) =
     (case published_at m of
        Some publishedDate \<Rightarrow>
          do { recency \<leftarrow> recencyScore now publishedDate;
               (recencyScores, publishedDates) \<leftarrow> recency_loop now ms;
               Some (recency # recencyScores, publishedDate # publishedDates) }
      | None \<Rightarrow>
          do { (recencyScores, publishedDates) \<leftarrow> recency_loop now ms;
               Some (0 # recencyScores, 0 # publishedDates) })"

text \<open>\<^verbatim>\<open>d.getHours() + d.getMinutes() / 60\<close>\<close>

definition hourOfDay :: "(int \<Rightarrow> int) \<Rightarrow> int \<Rightarrow> number" where
  "hourOfDay tz d = of_int (getHours tz d) + of_int (getMinutes tz d) / 60"

text \<open>
  The positional rule, which the source writes twice with the same text:
  \<^verbatim>\<open>
  const paperIndex = allMetrics.findIndex(m => m.downloads_7d === downloads7d);
  if (paperIndex >= 0 && allMetrics.length > 1) {
    return 1 - (paperIndex / (allMetrics.length - 1));
  }
  \<close>
  \<open>None\<close> here means that the condition failed and control goes on; a division that
  fails is \<open>Some None\<close>.
\<close>

definition indexRule :: "number \<Rightarrow> PaperMetric list \<Rightarrow> number option option" where
  "indexRule downloads7d allMetrics =
     (let paperIndex = findIndex (\<lambda>m. downloads_7d m = downloads7d) allMetrics
      in if paperIndex \<ge> 0 \<and> length allMetrics > 1
         then Some (do { q \<leftarrow> js_div (of_int paperIndex) (of_nat (length allMetrics) - 1);
                         Some (1 - q) })
         else None)"

text \<open>The end of the function: the positional rule, then \<^verbatim>\<open>return 0\<close>.\<close>

definition finalFallback :: "number \<Rightarrow> PaperMetric list \<Rightarrow> number option" where
  "finalFallback downloads7d allMetrics =
     (case indexRule downloads7d allMetrics of Some r \<Rightarrow> r | None \<Rightarrow> Some 0)"

text \<open>
  The branch \<^verbatim>\<open>else if (maxRecency > 0)\<close>: the time of day as a tie-break among equal
  recency scores, then the positional rule, then the end of the function.
\<close>

definition timeOfDayTiebreak ::
  "(int \<Rightarrow> int) \<Rightarrow> number \<Rightarrow> PaperMetric list \<Rightarrow> int \<Rightarrow> int list \<Rightarrow> number option" where
  "timeOfDayTiebreak tz downloads7d allMetrics currentPublishedDate publishedDates =
     (let currentHours = hourOfDay tz currentPublishedDate;
          allHours = map (hourOfDay tz) publishedDates
      in do { minHours \<leftarrow> Math_min allHours;
              maxHours \<leftarrow> Math_max allHours;
              if maxHours > minHours then normalize_value currentHours minHours maxHours
              else (case indexRule downloads7d allMetrics of
                      Some r \<Rightarrow> r
                    | None \<Rightarrow> finalFallback downloads7d allMetrics) })"

text \<open>
  The fallback taken when no citation count of the batch is positive. The current metric
  is \<^verbatim>\<open>allMetrics.find(m => m.downloads_7d === downloads7d)\<close>; \<^verbatim>\<open>currentMetric?.published_at\<close>
  fails both when nothing is found and when the found metric has no date.
\<close>

definition recencyFallback ::
  "int \<Rightarrow> (int \<Rightarrow> int) \<Rightarrow> number \<Rightarrow> PaperMetric list \<Rightarrow> number option" where
  "recencyFallback now tz downloads7d allMetrics =
     do { (recencyScores, publishedDates) \<leftarrow> recency_loop now allMetrics;
          if length recencyScores > 0
          then do {
            top \<leftarrow> Math_max recencyScores;
            if top > 0
            then (case find (\<lambda>m. downloads_7d m = downloads7d) allMetrics of
                    None \<Rightarrow> finalFallback downloads7d allMetrics
                  | Some currentMetric \<Rightarrow>
                     (case published_at currentMetric of
                        None \<Rightarrow> finalFallback downloads7d allMetrics
                      | Some currentPublishedDate \<Rightarrow>
                          do { currentRecency \<leftarrow> recencyScore now currentPublishedDate;
                               minRecency \<leftarrow> Math_min recencyScores;
                               maxRecency \<leftarrow> Math_max recencyScores;
                               if maxRecency > minRecency
                               then normalize_value currentRecency minRecency maxRecency
                               else if maxRecency > 0
                               then timeOfDayTiebreak tz downloads7d allMetrics
                                      currentPublishedDate publishedDates
                               else finalFallback downloads7d allMetrics }))
            else finalFallback downloads7d allMetrics }
          else finalFallback downloads7d allMetrics }"

text \<open>
  \<^verbatim>\<open>computeEngagementScore(downloads7d, githubRepoCount, allMetrics, publishedAt)\<close>.
  \<^verbatim>\<open>Math.min(...downloads7dCounts, 0)\<close> and \<^verbatim>\<open>Math.max(...downloads7dCounts, 0)\<close> receive
  the counts followed by the literal 0.
\<close>

definition computeEngagementScore ::
  "int \<Rightarrow> (int \<Rightarrow> int) \<Rightarrow> number \<Rightarrow> number \<Rightarrow> PaperMetric list \<Rightarrow> int option
     \<Rightarrow> number option" where
  "computeEngagementScore now tz downloads7d githubRepoCount allMetrics publishedAt =
     (let downloads7dCounts = map downloads_7d allMetrics
      in do { minDownloads \<leftarrow> Math_min (downloads7dCounts @ [0]);
              maxDownloads \<leftarrow> Math_max (downloads7dCounts @ [0]);
              if maxDownloads > 0
              then normalize_value downloads7d minDownloads maxDownloads
              else recencyFallback now tz downloads7d allMetrics })"

text \<open>
  A call of \<^verbatim>\<open>computeEngagementScore\<close> as an engine runs it. The first statement that
  spreads, \<^verbatim>\<open>Math.min(...downloads7dCounts, 0)\<close>, builds the longest list of arguments
  of the whole function, one more than the batch has items (the later spreads of
  \<^verbatim>\<open>recencyScores\<close> and \<^verbatim>\<open>allHours\<close> pass as many arguments as the batch has items), and
  it runs on every call. So the call throws \<^verbatim>\<open>RangeError\<close> exactly when that list exceeds
  the bound, and otherwise returns what \<open>computeEngagementScore\<close> computes; a result
  that is not a finite number is the failure \<open>NotFinite\<close>.
\<close>

definition computeEngagementScore_call ::
  "nat \<Rightarrow> int \<Rightarrow> (int \<Rightarrow> int) \<Rightarrow> number \<Rightarrow> number \<Rightarrow> PaperMetric list \<Rightarrow> int option
     \<Rightarrow> js_failure + number" where
  "computeEngagementScore_call maxArgs now tz downloads7d githubRepoCount allMetrics publishedAt =
     (case spread maxArgs (map downloads_7d allMetrics @ [0]) of
        Inl e \<Rightarrow> Inl e
      | Inr args \<Rightarrow>
          (case computeEngagementScore now tz downloads7d githubRepoCount allMetrics publishedAt of
             Some score \<Rightarrow> Inr score
           | None \<Rightarrow> Inl NotFinite))"

subsection \<open>The positional revision of computeEngagementScore\<close>

text \<open>
  Another revision of lib/scoring.ts has the same citation path and a fallback that is
  positional only, with a fifth parameter \<^verbatim>\<open>paperId\<close>:
  \<^verbatim>\<open>
  const metricsWithDates = allMetrics.map(m => ({...m, published_at: m.published_at || null}))
    .sort((a, b) => {
      if (!a.published_at || !b.published_at) return 0;
      return new Date(b.published_at).getTime() - new Date(a.published_at).getTime();
    });
  const paperIndex = paperId
    ? metricsWithDates.findIndex(m => m.paper_id === paperId)
    : metricsWithDates.findIndex(m => m.downloads_7d === downloads7d);
  if (paperIndex >= 0 && metricsWithDates.length > 1) {
    return 0.1 + (0.9 * (1 - paperIndex / (metricsWithDates.length - 1)));
  }
  return 0;
  \<close>
  The comparator is not a consistent order when a date is absent, so the order that
  \<^verbatim>\<open>sort\<close> leaves is implementation-defined; the sorting step is the parameter
  \<open>sortByDate\<close>, of which nothing is assumed. An absent or empty \<^verbatim>\<open>paperId\<close> is falsy.
\<close>

definition computeEngagementScore_positional ::
  "(PaperMetric list \<Rightarrow> PaperMetric list) \<Rightarrow> number \<Rightarrow> number \<Rightarrow> PaperMetric list
     \<Rightarrow> int option \<Rightarrow> string option \<Rightarrow> number option" where
  "computeEngagementScore_positional sortByDate downloads7d githubRepoCount allMetrics
       publishedAt paperId =
     (let downloads7dCounts = map downloads_7d allMetrics
      in do { minDownloads \<leftarrow> Math_min (downloads7dCounts @ [0]);
              maxDownloads \<leftarrow> Math_max (downloads7dCounts @ [0]);
              if maxDownloads > 0
              then normalize_value downloads7d minDownloads maxDownloads
              else (let metricsWithDates = sortByDate allMetrics;
                        byCount = findIndex (\<lambda>m. downloads_7d m = downloads7d) metricsWithDates;
                        paperIndex =
                          (case paperId of
                             Some pid \<Rightarrow>
                               if pid = [] then byCount
                               else findIndex (\<lambda>m. paper_id m = pid) metricsWithDates
                           | None \<Rightarrow> byCount)
                    in if paperIndex \<ge> 0 \<and> length metricsWithDates > 1
                       then do { q \<leftarrow> js_div (of_int paperIndex)
                                        (of_nat (length metricsWithDates) - 1);
                                 Some (1 / 10 + 9 / 10 * (1 - q)) }
                       else Some 0) })"

subsection \<open>Scoring and writing in computeEngagementScoresForDate\<close>

text \<open>
  \<^verbatim>\<open>computeEngagementScoresForDate\<close> first builds the whole array \<^verbatim>\<open>updates\<close> (one
  \<^verbatim>\<open>{ id, engagement_score }\<close> per metric of the batch) and only then writes:
  \<^verbatim>\<open>
  for (const update of updates) {
    const { error: updateError } = await supabase.from('paper_metrics')
      .update({ engagement_score: update.engagement_score }).eq('id', update.id);
    if (updateError) {
      console.error(`Failed to update score for metric ${update.id}:`, updateError);
    }
  }
  \<close>
  The metric store is outside the repository. It is a parameter here: a state of any type
  \<open>'db\<close> and an operation that, given the row key and the score, answers with
  the \<^verbatim>\<open>error\<close> field of its reply (\<open>None\<close> for a successful write) and the next
  state. The world keeps, beside the store, the lines sent to \<^verbatim>\<open>console.error\<close> and
  a trace of the requests issued together with the store's answers.
\<close>

record ScoreUpdate =
  update_id :: int
  update_engagement_score :: number

record 'db world =
  store :: 'db
  requests :: "(ScoreUpdate \<times> string option) list"
  console_error :: "(int \<times> string) list"

fun update_loop ::
  "('db \<Rightarrow> int \<Rightarrow> number \<Rightarrow> string option \<times> 'db) \<Rightarrow> ScoreUpdate list \<Rightarrow> 'db world
     \<Rightarrow> 'db world" where
  "update_loop db_update [] w = w"
| "update_loop db_update (u # updates) w =
     (case db_update (store w) (update_id u) (update_engagement_score u) of
        (updateError, db') \<Rightarrow>
          (let w' = w\<lparr>store := db', requests := requests w @ [(u, updateError)]\<rparr>
           in update_loop db_update updates
                (case updateError of
                   Some e \<Rightarrow> w'\<lparr>console_error := console_error w' @ [(update_id u, e)]\<rparr>
                 | None \<Rightarrow> w')))"

text \<open>The console lines that a trace of answered requests calls for: one per failed write.\<close>

fun reported :: "(ScoreUpdate \<times> string option) list \<Rightarrow> (int \<times> string) list" where
  "reported [] = []"
| "reported ((u, None) # rs) = reported rs"
| "reported ((u, Some e) # rs) = (update_id u, e) # reported rs"

definition initial_world :: "'db \<Rightarrow> 'db world" where
  "initial_world db = \<lparr>store = db, requests = [], console_error = []\<rparr>"

text \<open>
  The scores of the batch, computed before the loop:
  \<^verbatim>\<open>
  const updates = metricsWithDates.map((metric: any) => {
    const score = computeEngagementScore(metric.downloads_7d, metric.github_repo_count,
                                         metricsWithDates, metric.published_at);
    return { id: metric.id, engagement_score: score };
  });
  \<close>
  The calls are made in the order of the batch, each with the whole batch as third
  argument; \<open>clock k\<close> is the clock reading of the call for the item at index \<open>k\<close>.
  A call that throws ends the function before any write.
\<close>

fun computeUpdates ::
  "nat \<Rightarrow> (nat \<Rightarrow> int) \<Rightarrow> (int \<Rightarrow> int) \<Rightarrow> PaperMetric list \<Rightarrow> nat \<Rightarrow> PaperMetric list
     \<Rightarrow> js_failure + ScoreUpdate list" where
  "computeUpdates maxArgs clock tz metricsWithDates k [] = Inr []"
| "computeUpdates maxArgs clock tz metricsWithDates k (metric # rest) =
     (case computeEngagementScore_call maxArgs (clock k) tz (downloads_7d metric)
             (github_repo_count metric) metricsWithDates (published_at metric) of
        Inl e \<Rightarrow> Inl e
      | Inr score \<Rightarrow>
          (case computeUpdates maxArgs clock tz metricsWithDates (Suc k) rest of
             Inl e \<Rightarrow> Inl e
           | Inr updates \<Rightarrow>
               Inr (\<lparr>update_id = metric_id metric, update_engagement_score = score\<rparr> # updates)))"

text \<open>
  \<^verbatim>\<open>computeEngagementScoresForDate\<close> from the point where \<^verbatim>\<open>metricsWithDates\<close> is built
  and sorted (the fetches before that point are outside this model): the scores, then the
  update loop on a store in the state \<open>db\<close>.
\<close>

definition computeEngagementScoresForDate_tail ::
  "nat \<Rightarrow> (nat \<Rightarrow> int) \<Rightarrow> (int \<Rightarrow> int) \<Rightarrow> ('db \<Rightarrow> int \<Rightarrow> number \<Rightarrow> string option \<times> 'db)
     \<Rightarrow> PaperMetric list \<Rightarrow> 'db \<Rightarrow> js_failure + 'db world" where
  "computeEngagementScoresForDate_tail maxArgs clock tz db_update metricsWithDates db =
     (case computeUpdates maxArgs clock tz metricsWithDates 0 metricsWithDates of
        Inl e \<Rightarrow> Inl e
      | Inr updates \<Rightarrow> Inr (update_loop db_update updates (initial_world db)))"

subsection \<open>Example data\<close>

text \<open>
  A store for the examples: a table from row key to score, in which the write of every
  row listed in \<open>failing\<close> is refused and leaves the table as it was.
\<close>

definition table_update ::
  "int list \<Rightarrow> (int \<times> number) list \<Rightarrow> int \<Rightarrow> number \<Rightarrow> string option \<times> (int \<times> number) list" where
  "table_update failing db k v =
     (if k \<in> set failing then (Some ''write refused'', db) else (None, AList.update k v db))"

definition UTC :: "int \<Rightarrow> int" where
  "UTC t = 0"

text \<open>A metric row with the given paper, citation count and publication instant.\<close>

definition paper :: "string \<Rightarrow> number \<Rightarrow> int option \<Rightarrow> PaperMetric" where
  "paper p c t =
     \<lparr>metric_id = 0, paper_id = p, snapshot_date = ''2024-01-10'', downloads_total = c,
      downloads_7d = c, github_repo_count = 0, engagement_score = 0, published_at = t\<rparr>"

text \<open>Midnight UTC of 2024-01-10 and the length of a day, in milliseconds.\<close>

definition jan10 :: int where
  "jan10 = 1704844800000"

definition day :: int where
  "day = 86400000"

text \<open>A clock that advances by one millisecond per call, and a metric row with a key.\<close>

definition tick :: "nat \<Rightarrow> int" where
  "tick k = jan10 + int k"

definition row :: "int \<Rightarrow> string \<Rightarrow> number \<Rightarrow> int option \<Rightarrow> PaperMetric" where
  "row i p c t = (paper p c t)\<lparr>metric_id := i\<rparr>"

section \<open>Auxiliary facts\<close>

lemma paper_sel [simp]:
  "downloads_7d (paper p c t) = c" "published_at (paper p c t) = t"
  "github_repo_count (paper p c t) = 0"
  by (simp_all add: paper_def)

lemma Math_max_Max: "xs \<noteq> [] \<Longrightarrow> Math_max xs = Some (Max (set xs))"
  by (cases xs) (simp_all add: Max.set_eq_fold del: set_simps)

lemma Math_min_Min: "xs \<noteq> [] \<Longrightarrow> Math_min xs = Some (Min (set xs))"
  by (cases xs) (simp_all add: Min.set_eq_fold del: set_simps)

lemma findIndex_lower: "- 1 \<le> findIndex P xs"
  by (induction xs) (auto simp: Let_def)

lemma findIndex_upper: "findIndex P xs < int (length xs)"
  by (induction xs) (auto simp: Let_def)

lemma normalize_total: "\<exists>s. normalize_value v a b = Some s"
  by (simp add: normalize_value_def js_div_def)

lemma normalize_unit:
  assumes "a \<le> v" and "v \<le> b"
  shows "\<exists>s. normalize_value v a b = Some s \<and> 0 \<le> s \<and> s \<le> 1"
proof (cases "b = 0 \<or> b = a")
  case True
  then show ?thesis by (auto simp: normalize_value_def)
next
  case False
  with assms have "a < b" by auto
  with assms have "0 \<le> (v - a) / (b - a)" "(v - a) / (b - a) \<le> 1"
    by (simp_all add: field_simps)
  with False show ?thesis by (auto simp: normalize_value_def js_div_def)
qed

text \<open>The divisor of a recency score is at least 1, so the score is a positive number.\<close>

lemma recencyScore_closed:
  "recencyScore now t = Some (1 / (1 + max 0 (of_int (now - t) / 3600000) / 24))"
proof -
  have "(1::rat) + max 0 (of_int (now - t) / 3600000) / 24 > 0"
    by (simp add: add_pos_nonneg)
  then show ?thesis by (simp add: recencyScore_def js_div_def)
qed

lemma recency_loop_closed:
  "recency_loop now ms =
     Some (map (\<lambda>m. case published_at m of Some t \<Rightarrow> the (recencyScore now t) | None \<Rightarrow> 0) ms,
           map (\<lambda>m. case published_at m of Some t \<Rightarrow> t | None \<Rightarrow> 0) ms)"
  by (induction ms) (auto simp: recencyScore_closed split: option.splits)

text \<open>Where the positional rule applies, the index is between 0 and \<open>n - 1\<close>.\<close>

lemma indexRule_unit:
  assumes a: "indexRule d ms = Some r"
  shows "\<exists>s. r = Some s \<and> 0 \<le> s \<and> s \<le> 1"
proof -
  let ?i = "findIndex (\<lambda>m. downloads_7d m = d) ms"
  from a have i0: "0 \<le> ?i" and n: "1 < length ms"
    by (auto simp: indexRule_def Let_def split: if_splits)
  have iu: "?i \<le> int (length ms) - 1"
    using findIndex_upper [of "\<lambda>m. downloads_7d m = d" ms] by simp
  define q :: rat where "q = of_int ?i / (of_nat (length ms) - 1)"
  have den: "(of_nat (length ms) - 1 :: rat) > 0" using n by simp
  have "of_int ?i \<le> (of_nat (length ms) - 1 :: rat)"
    using iu by (metis of_int_1 of_int_diff of_int_le_iff of_int_of_nat_eq)
  then have q1: "q \<le> 1" using den by (simp add: q_def field_simps)
  have q0: "0 \<le> q" using den i0 by (simp add: q_def)
  from a i0 n den have "r = Some (1 - q)"
    by (auto simp: indexRule_def Let_def js_div_def q_def)
  with q0 q1 show ?thesis by simp
qed

lemma finalFallback_unit: "\<exists>s. finalFallback d ms = Some s \<and> 0 \<le> s \<and> s \<le> 1"
  using indexRule_unit [of d ms] by (auto simp: finalFallback_def split: option.splits)

lemma timeOfDayTiebreak_unit:
  assumes "c \<in> set ds"
  shows "\<exists>s. timeOfDayTiebreak tz d ms c ds = Some s \<and> 0 \<le> s \<and> s \<le> 1"
proof -
  let ?hs = "map (hourOfDay tz) ds"
  from assms have ne: "?hs \<noteq> []" by auto
  from assms have mem: "hourOfDay tz c \<in> set ?hs" by auto
  have lo: "Min (set ?hs) \<le> hourOfDay tz c" using mem by (intro Min_le) auto
  have hi: "hourOfDay tz c \<le> Max (set ?hs)" using mem by (intro Max_ge) auto
  have rest: "\<exists>s. (case indexRule d ms of Some r \<Rightarrow> r | None \<Rightarrow> finalFallback d ms) = Some s
                 \<and> 0 \<le> s \<and> s \<le> 1"
    using indexRule_unit [of d ms] finalFallback_unit [of d ms]
    by (cases "indexRule d ms") auto
  show ?thesis
    unfolding timeOfDayTiebreak_def Let_def Math_min_Min [OF ne] Math_max_Max [OF ne]
    using normalize_unit [OF lo hi] rest by simp
qed

text \<open>
  The fallback is in the unit interval for every batch and every count looked for: the
  current metric is found in the batch, so its recency score and its time of day lie
  between the batch's minimum and maximum.
\<close>

lemma recencyFallback_unit:
  "\<exists>s. recencyFallback now tz d ms = Some s \<and> 0 \<le> s \<and> s \<le> 1"
proof (cases "ms = []")
  case True
  then show ?thesis
    using finalFallback_unit [of d "[]"] by (simp add: recencyFallback_def)
next
  case False
  let ?rs = "map (\<lambda>m. case published_at m of Some t \<Rightarrow> the (recencyScore now t) | None \<Rightarrow> 0) ms"
  let ?ds = "map (\<lambda>m. case published_at m of Some t \<Rightarrow> t | None \<Rightarrow> 0) ms"
  from False have ne: "?rs \<noteq> []" by simp
  note fin = finalFallback_unit [of d ms]
  have inner: "\<exists>s. (do { currentRecency \<leftarrow> recencyScore now t;
                         minRecency \<leftarrow> Math_min ?rs;
                         maxRecency \<leftarrow> Math_max ?rs;
                         if maxRecency > minRecency
                         then normalize_value currentRecency minRecency maxRecency
                         else if maxRecency > 0
                         then timeOfDayTiebreak tz d ms t ?ds
                         else finalFallback d ms }) = Some s \<and> 0 \<le> s \<and> s \<le> 1"
    if cm: "cm \<in> set ms" and pt: "published_at cm = Some t" for cm t
  proof -
    obtain r where r: "recencyScore now t = Some r" by (simp add: recencyScore_closed)
    from cm pt r have mem: "r \<in> set ?rs" by (force simp: image_iff)
    from cm pt have tmem: "t \<in> set ?ds" by (force simp: image_iff)
    have lo: "Min (set ?rs) \<le> r" using mem by (intro Min_le) auto
    have hi: "r \<le> Max (set ?rs)" using mem by (intro Max_ge) auto
    show ?thesis
      unfolding r Math_min_Min [OF ne] Math_max_Max [OF ne]
      using normalize_unit [OF lo hi] timeOfDayTiebreak_unit [OF tmem, of tz d ms] fin
      by simp
  qed
  show ?thesis
  proof (cases "find (\<lambda>m. downloads_7d m = d) ms")
    case None
    then show ?thesis
      using fin False
      by (simp add: recencyFallback_def recency_loop_closed Math_max_Max [OF ne])
  next
    case (Some cm)
    then have cm: "cm \<in> set ms" by (auto simp: find_Some_iff)
    show ?thesis
    proof (cases "published_at cm")
      case None
      with Some show ?thesis
        using fin False
        by (simp add: recencyFallback_def recency_loop_closed Math_max_Max [OF ne])
    next
      case (Some t)
      from inner [OF cm Some] \<open>find _ ms = Some cm\<close> Some fin False show ?thesis
        by (simp add: recencyFallback_def recency_loop_closed Math_max_Max [OF ne])
    qed
  qed
qed

lemma counts_floor:
  "Math_min (map downloads_7d ms @ [0]) = Some (Min (insert 0 (downloads_7d ` set ms)))"
  "Math_max (map downloads_7d ms @ [0]) = Some (Max (insert 0 (downloads_7d ` set ms)))"
  by (simp_all add: Math_min_Min Math_max_Max)

lemma Max_counts_pos:
  assumes "m \<in> set ms" and "0 < downloads_7d m"
  shows "0 < Max (downloads_7d ` set ms)"
proof -
  from assms(1) have "downloads_7d m \<le> Max (downloads_7d ` set ms)" by (intro Max_ge) auto
  with assms(2) show ?thesis by linarith
qed

text \<open>
  The citation path: with non-negative counts of which one is positive, the range is
  \<open>[0, max]\<close> and the score is the count divided by the largest count.
\<close>

lemma primary_path:
  assumes pos: "\<exists>m\<in>set ms. 0 < downloads_7d m" and nonneg: "\<forall>m\<in>set ms. 0 \<le> downloads_7d m"
  shows "computeEngagementScore now tz d g ms p = Some (d / Max (downloads_7d ` set ms))"
proof -
  let ?C = "downloads_7d ` set ms"
  from pos have ne: "?C \<noteq> {}" by auto
  from pos have mpos: "0 < Max ?C" using Max_counts_pos by blast
  have hi: "Max (insert 0 ?C) = Max ?C"
    using mpos ne by (simp add: max_def)
  have "0 \<le> Min ?C" using nonneg ne by (simp add: Min_ge_iff)
  then have lo: "Min (insert 0 ?C) = 0" using ne by (simp add: min_def)
  show ?thesis
    using mpos
    by (simp add: computeEngagementScore_def counts_floor hi lo normalize_value_def js_div_def)
qed

lemma recencyScore_pos: "recencyScore now t = Some r \<Longrightarrow> 0 < r"
  by (auto simp: recencyScore_closed intro!: add_pos_nonneg)

lemma reported_append: "reported (rs @ rs') = reported rs @ reported rs'"
  by (induction rs rule: reported.induct) simp_all

text \<open>
  The loop issues one request per update, in order, and adds to the console exactly the
  lines that the answers call for; the state it starts from is arbitrary.
\<close>

lemma update_loop_trace:
  "\<exists>rs. requests (update_loop db_update updates w) = requests w @ rs
        \<and> map fst rs = updates
        \<and> console_error (update_loop db_update updates w) = console_error w @ reported rs"
proof (induction updates arbitrary: w)
  case Nil
  then show ?case by simp
next
  case (Cons u updates)
  obtain updateError db' where call:
    "db_update (store w) (update_id u) (update_engagement_score u) = (updateError, db')"
    by (cases "db_update (store w) (update_id u) (update_engagement_score u)")
  define w2 where "w2 =
    (case updateError of
       Some e \<Rightarrow> w\<lparr>store := db', requests := requests w @ [(u, updateError)],
                  console_error := console_error w @ [(update_id u, e)]\<rparr>
     | None \<Rightarrow> w\<lparr>store := db', requests := requests w @ [(u, updateError)]\<rparr>)"
  have step: "update_loop db_update (u # updates) w = update_loop db_update updates w2"
    by (cases updateError) (simp_all add: call w2_def)
  have req: "requests w2 = requests w @ [(u, updateError)]"
    by (cases updateError) (simp_all add: w2_def)
  have con: "console_error w2 = console_error w @ reported [(u, updateError)]"
    by (cases updateError) (simp_all add: w2_def)
  from Cons.IH [of w2] obtain rs where rs:
    "requests (update_loop db_update updates w2) = requests w2 @ rs"
    "map fst rs = updates"
    "console_error (update_loop db_update updates w2) = console_error w2 @ reported rs"
    by blast
  have split: "reported ((u, updateError) # rs) = reported [(u, updateError)] @ reported rs"
    using reported_append [of "[(u, updateError)]" rs] by simp
  have "requests (update_loop db_update (u # updates) w) = requests w @ (u, updateError) # rs"
    unfolding step by (simp add: rs req)
  moreover have "map fst ((u, updateError) # rs) = u # updates"
    by (simp add: rs)
  moreover have "console_error (update_loop db_update (u # updates) w)
      = console_error w @ reported ((u, updateError) # rs)"
    by (simp only: step rs con split append_assoc)
  ultimately show ?case
    by (intro exI [of _ "(u, updateError) # rs"] conjI)
qed

lemma computeEngagementScore_defined:
  "\<exists>s. computeEngagementScore now tz d g ms p = Some s"
proof (cases "0 < Max (insert 0 (downloads_7d ` set ms))")
  case True
  then show ?thesis
    using normalize_total
    by (simp add: computeEngagementScore_def counts_floor)
next
  case False
  then show ?thesis
    using recencyFallback_unit [of now tz d ms]
    by (auto simp add: computeEngagementScore_def counts_floor)
qed

lemma update_loop_append:
  "update_loop db_update (us @ vs) w = update_loop db_update vs (update_loop db_update us w)"
proof (induction us arbitrary: w)
  case Nil
  then show ?case by simp
next
  case (Cons u us)
  show ?case
    by (cases "db_update (store w) (update_id u) (update_engagement_score u)")
       (simp add: Cons.IH Let_def)
qed

lemma update_loop_single:
  "requests (update_loop db_update [u] w)
     = requests w @ [(u, fst (db_update (store w) (update_id u) (update_engagement_score u)))]"
  "store (update_loop db_update [u] w)
     = snd (db_update (store w) (update_id u) (update_engagement_score u))"
proof -
  obtain e db' where call:
    "db_update (store w) (update_id u) (update_engagement_score u) = (e, db')"
    by (cases "db_update (store w) (update_id u) (update_engagement_score u)")
  show "requests (update_loop db_update [u] w)
     = requests w @ [(u, fst (db_update (store w) (update_id u) (update_engagement_score u)))]"
    by (cases e) (simp_all add: call)
  show "store (update_loop db_update [u] w)
     = snd (db_update (store w) (update_id u) (update_engagement_score u))"
    by (cases e) (simp_all add: call)
qed

lemma update_loop_requests_length:
  "length (requests (update_loop db_update updates w)) = length (requests w) + length updates"
proof -
  from update_loop_trace [of db_update updates w] obtain rs where
    "requests (update_loop db_update updates w) = requests w @ rs" "map fst rs = updates"
    by blast
  then show ?thesis by (metis length_append length_map)
qed

lemma update_loop_requests_prefix:
  "\<exists>rs. requests (update_loop db_update updates w) = requests w @ rs"
  using update_loop_trace [of db_update updates w] by blast

lemma update_loop_request_nth:
  assumes k: "k < length updates" and empty: "requests w = []"
  shows "requests (update_loop db_update updates w) ! k
     = (updates ! k,
        fst (db_update (store (update_loop db_update (take k updates) w))
              (update_id (updates ! k)) (update_engagement_score (updates ! k))))"
proof -
  let ?wk = "update_loop db_update (take k updates) w"
  let ?w1 = "update_loop db_update [updates ! k] ?wk"
  have split: "take k updates @ [updates ! k] @ drop (Suc k) updates = updates"
    using k id_take_nth_drop [of k updates] by simp
  have "update_loop db_update (take k updates @ [updates ! k] @ drop (Suc k) updates) w
      = update_loop db_update (drop (Suc k) updates) ?w1"
    by (simp only: update_loop_append)
  then have final:
    "update_loop db_update updates w = update_loop db_update (drop (Suc k) updates) ?w1"
    by (simp only: split)
  have lenk: "length (requests ?wk) = k"
    using k by (simp add: update_loop_requests_length empty)
  obtain rs where rs: "requests (update_loop db_update (drop (Suc k) updates) ?w1)
      = requests ?w1 @ rs"
    using update_loop_requests_prefix by blast
  have "requests (update_loop db_update updates w)
      = requests ?wk @ [(updates ! k,
          fst (db_update (store ?wk) (update_id (updates ! k))
                (update_engagement_score (updates ! k))))] @ rs"
    by (simp only: final rs update_loop_single append_assoc)
  then show ?thesis
    using lenk by (simp add: nth_append)
qed

lemma update_loop_store_step:
  assumes k: "k < length updates"
  shows "store (update_loop db_update (take (Suc k) updates) w)
     = snd (db_update (store (update_loop db_update (take k updates) w))
             (update_id (updates ! k)) (update_engagement_score (updates ! k)))"
proof -
  from k have "take (Suc k) updates = take k updates @ [updates ! k]"
    by (rule take_Suc_conv_app_nth)
  then show ?thesis
    by (simp only: update_loop_append update_loop_single)
qed

lemma update_loop_console:
  assumes "requests w = []" and "console_error w = []"
  shows "console_error (update_loop db_update updates w)
     = reported (requests (update_loop db_update updates w))"
  using update_loop_trace [of db_update updates w] assms by auto

lemma computeUpdates_within_limit:
  assumes "length allMetrics < maxArgs"
  shows "\<exists>updates. computeUpdates maxArgs clock tz allMetrics k ms = Inr updates
     \<and> length updates = length ms
     \<and> (\<forall>j<length ms.
           update_id (updates ! j) = metric_id (ms ! j)
         \<and> computeEngagementScore (clock (k + j)) tz (downloads_7d (ms ! j))
             (github_repo_count (ms ! j)) allMetrics (published_at (ms ! j))
           = Some (update_engagement_score (updates ! j)))"
proof (induction ms arbitrary: k)
  case Nil
  then show ?case by simp
next
  case (Cons m ms)
  obtain s where s: "computeEngagementScore (clock k) tz (downloads_7d m) (github_repo_count m)
      allMetrics (published_at m) = Some s"
    using computeEngagementScore_defined by blast
  with assms have call: "computeEngagementScore_call maxArgs (clock k) tz (downloads_7d m)
      (github_repo_count m) allMetrics (published_at m) = Inr s"
    by (simp add: computeEngagementScore_call_def spread_def)
  from Cons.IH [of "Suc k"] obtain us where us:
    "computeUpdates maxArgs clock tz allMetrics (Suc k) ms = Inr us"
    "length us = length ms"
    "\<forall>j<length ms.
        update_id (us ! j) = metric_id (ms ! j)
      \<and> computeEngagementScore (clock (Suc k + j)) tz (downloads_7d (ms ! j))
          (github_repo_count (ms ! j)) allMetrics (published_at (ms ! j))
        = Some (update_engagement_score (us ! j))"
    by blast
  let ?u = "\<lparr>update_id = metric_id m, update_engagement_score = s\<rparr>"
  have res: "computeUpdates maxArgs clock tz allMetrics k (m # ms) = Inr (?u # us)"
    by (simp add: call us)
  have each: "update_id ((?u # us) ! j) = metric_id ((m # ms) ! j)
      \<and> computeEngagementScore (clock (k + j)) tz (downloads_7d ((m # ms) ! j))
          (github_repo_count ((m # ms) ! j)) allMetrics (published_at ((m # ms) ! j))
        = Some (update_engagement_score ((?u # us) ! j))"
    if "j < length (m # ms)" for j
  proof (cases j)
    case 0
    then show ?thesis by (simp add: s)
  next
    case (Suc i)
    with that have "i < length ms" by simp
    with us(3) Suc show ?thesis by simp
  qed
  have "length (?u # us) = length (m # ms)" using us(2) by simp
  with res each show ?case by blast
qed


text \<open>
  An example run: the store refuses the write of row 1; the write of row 2 is still made
  and the console has the one line for row 1.
\<close>

lemma tail_example:
  "computeEngagementScoresForDate_tail 125000 tick UTC (table_update [1])
     [row 1 ''A'' 10 None, row 2 ''B'' 5 None] [(1, 0), (2, 0)]
   = Inr \<lparr>store = [(1, 0), (2, 1 / 2)],
          requests = [(\<lparr>update_id = 1, update_engagement_score = 1\<rparr>, Some ''write refused''),
                      (\<lparr>update_id = 2, update_engagement_score = 1 / 2\<rparr>, None)],
          console_error = [(1, ''write refused'')]\<rparr>"
  by (simp add: computeEngagementScoresForDate_tail_def computeEngagementScore_call_def
      spread_def computeEngagementScore_def normalize_value_def js_div_def row_def paper_def
      table_update_def initial_world_def)

lemma positional_index_unit:
  assumes i0: "0 \<le> i" and iu: "i < int n" and n: "1 < n"
  shows "\<exists>s. (do { q \<leftarrow> js_div (of_int i) (of_nat n - 1); Some (1 / 10 + 9 / 10 * (1 - q)) })
              = Some s \<and> 0 \<le> s \<and> s \<le> 1"
proof -
  define q :: rat where "q = of_int i / (of_nat n - 1)"
  have den: "(of_nat n - 1 :: rat) > 0" using n by simp
  have "i \<le> int n - 1" using iu by simp
  then have "of_int i \<le> (of_nat n - 1 :: rat)"
    by (metis of_int_1 of_int_diff of_int_le_iff of_int_of_nat_eq)
  then have q1: "q \<le> 1" using den by (simp add: q_def field_simps)
  have q0: "0 \<le> q" using den i0 by (simp add: q_def)
  have "js_div (of_int i) (of_nat n - 1) = Some q" using den by (simp add: js_div_def q_def)
  moreover have "0 \<le> 1 / 10 + 9 / 10 * (1 - q)"
    using q1 by (intro add_nonneg_nonneg mult_nonneg_nonneg) simp_all
  moreover have "1 / 10 + 9 / 10 * (1 - q) \<le> 1"
    using q0 by (simp add: field_simps)
  ultimately show ?thesis by simp
qed

section \<open>The properties\<close>

text \<open>
  C1. For every batch whose citation counts are non-negative, the score that
  \<open>computeEngagementScore\<close> returns for an item of the batch is a number of the closed
  interval from 0 to 1, on the citation path and on every branch of the fallback.
\<close>

theorem engagement_score_in_unit_interval:
  assumes "\<forall>m\<in>set allMetrics. 0 \<le> downloads_7d m" and "x \<in> set allMetrics"
  shows "\<exists>s. computeEngagementScore now tz (downloads_7d x) (github_repo_count x) allMetrics
               (published_at x) = Some s \<and> 0 \<le> s \<and> s \<le> 1"
proof (cases "\<exists>m\<in>set allMetrics. 0 < downloads_7d m")
  case True
  let ?C = "downloads_7d ` set allMetrics"
  from True have mpos: "0 < Max ?C" using Max_counts_pos by blast
  have le: "downloads_7d x \<le> Max ?C" using assms(2) by (intro Max_ge) auto
  have ge: "0 \<le> downloads_7d x" using assms by blast
  from ge le mpos have "0 \<le> downloads_7d x / Max ?C" "downloads_7d x / Max ?C \<le> 1"
    by (simp_all add: field_simps)
  then show ?thesis
    by (simp add: primary_path [OF True assms(1)])
next
  case False
  then have "Max (insert 0 (downloads_7d ` set allMetrics)) \<le> 0"
    by (subst Max_le_iff) (auto simp: not_less)
  then have "\<not> 0 < Max (insert 0 (downloads_7d ` set allMetrics))" by linarith
  then show ?thesis
    using recencyFallback_unit [of now tz "downloads_7d x" allMetrics]
    by (simp add: computeEngagementScore_def counts_floor)
qed

theorem engagement_score_in_unit_interval_witness:
  "list_all (\<lambda>m. 0 \<le> downloads_7d m) [paper ''A'' 10 None, paper ''B'' 0 None, paper ''C'' 5 None]
   \<and> paper ''C'' 5 None \<in> set [paper ''A'' 10 None, paper ''B'' 0 None, paper ''C'' 5 None]
   \<and> (\<exists>s. computeEngagementScore jan10 UTC (downloads_7d (paper ''C'' 5 None))
              (github_repo_count (paper ''C'' 5 None))
              [paper ''A'' 10 None, paper ''B'' 0 None, paper ''C'' 5 None]
              (published_at (paper ''C'' 5 None)) = Some s \<and> 0 \<le> s \<and> s \<le> 1)"
proof -
  let ?batch = "[paper ''A'' 10 None, paper ''B'' 0 None, paper ''C'' 5 None]"
  have nonneg: "\<forall>m\<in>set ?batch. 0 \<le> downloads_7d m" by simp
  have mem: "paper ''C'' 5 None \<in> set ?batch" by simp
  from nonneg mem engagement_score_in_unit_interval [OF nonneg mem, of jan10 UTC]
  show ?thesis by (simp add: list_all_iff)
qed

text \<open>
  The positional revision of the scorer keeps its result in the unit interval as well,
  whatever order its sorting step leaves the batch in and whatever \<open>paperId\<close> is passed.
\<close>

lemma positional_revision_in_unit_interval:
  assumes "\<forall>m\<in>set allMetrics. 0 \<le> downloads_7d m" and "x \<in> set allMetrics"
  shows "\<exists>s. computeEngagementScore_positional sortByDate (downloads_7d x) (github_repo_count x)
               allMetrics (published_at x) paperId = Some s \<and> 0 \<le> s \<and> s \<le> 1"
proof (cases "0 < Max (insert 0 (downloads_7d ` set allMetrics))")
  case True
  let ?C = "insert 0 (downloads_7d ` set allMetrics)"
  have "0 \<le> Min ?C" using assms(1) by (subst Min_ge_iff) auto
  moreover have "Min ?C \<le> 0" by (intro Min_le) auto
  ultimately have lo: "Min ?C = 0" by (rule antisym [rotated])
  have ge: "0 \<le> downloads_7d x" using assms by blast
  have le: "downloads_7d x \<le> Max ?C" using assms(2) by (intro Max_ge) auto
  from True show ?thesis
    using normalize_unit [of 0 "downloads_7d x" "Max ?C"] ge le
    by (simp add: computeEngagementScore_positional_def counts_floor lo)
next
  case False
  let ?ys = "sortByDate allMetrics"
  let ?byCount = "findIndex (\<lambda>m. downloads_7d m = downloads_7d x) ?ys"
  define i where "i =
    (case paperId of
       Some pid \<Rightarrow> if pid = [] then ?byCount else findIndex (\<lambda>m. paper_id m = pid) ?ys
     | None \<Rightarrow> ?byCount)"
  have iu: "i < int (length ?ys)"
    by (cases paperId) (simp_all add: i_def findIndex_upper)
  have eq: "computeEngagementScore_positional sortByDate (downloads_7d x) (github_repo_count x)
              allMetrics (published_at x) paperId
            = (if 0 \<le> i \<and> 1 < length ?ys
               then do { q \<leftarrow> js_div (of_int i) (of_nat (length ?ys) - 1);
                         Some (1 / 10 + 9 / 10 * (1 - q)) }
               else Some 0)"
    using False
    by (simp add: computeEngagementScore_positional_def counts_floor Let_def i_def)
  show ?thesis
  proof (cases "0 \<le> i \<and> 1 < length ?ys")
    case True
    then have i0: "0 \<le> i" and n: "1 < length ?ys" by simp_all
    from positional_index_unit [OF i0 iu n] show ?thesis
      by (simp only: eq i0 n simp_thms if_True)
  next
    case False
    then show ?thesis unfolding eq by (simp only: if_False) simp
  qed
qed

text \<open>
  C2. For every batch whose citation counts are non-negative and not all equal, the
  scores are ordered like the counts: if the count of item \<open>a\<close> is at most the count of
  item \<open>b\<close>, then the score of \<open>a\<close> is at most the score of \<open>b\<close>. The two calls may read
  different clocks.
\<close>

theorem engagement_score_monotone:
  assumes nonneg: "\<forall>m\<in>set allMetrics. 0 \<le> downloads_7d m"
    and differ: "\<exists>m\<in>set allMetrics. \<exists>m'\<in>set allMetrics. downloads_7d m \<noteq> downloads_7d m'"
    and a: "a \<in> set allMetrics" and b: "b \<in> set allMetrics"
    and le: "downloads_7d a \<le> downloads_7d b"
  shows "\<exists>sa sb.
           computeEngagementScore now tz (downloads_7d a) (github_repo_count a) allMetrics
             (published_at a) = Some sa
         \<and> computeEngagementScore now' tz' (downloads_7d b) (github_repo_count b) allMetrics
             (published_at b) = Some sb
         \<and> sa \<le> sb"
proof -
  let ?C = "downloads_7d ` set allMetrics"
  from differ obtain m m' where mm: "m \<in> set allMetrics" "m' \<in> set allMetrics"
    "downloads_7d m \<noteq> downloads_7d m'" by blast
  with nonneg have "0 \<le> downloads_7d m" "0 \<le> downloads_7d m'" by blast+
  with mm have "0 < downloads_7d m \<or> 0 < downloads_7d m'" by linarith
  with mm have pos: "\<exists>m\<in>set allMetrics. 0 < downloads_7d m" by blast
  then have mpos: "0 < Max ?C" using Max_counts_pos by blast
  from le mpos have "downloads_7d a / Max ?C \<le> downloads_7d b / Max ?C"
    by (simp add: divide_right_mono)
  then show ?thesis
    by (simp add: primary_path [OF pos nonneg])
qed

theorem engagement_score_monotone_witness:
  "list_all (\<lambda>m. 0 \<le> downloads_7d m) [paper ''A'' 10 None, paper ''B'' 0 None]
   \<and> downloads_7d (paper ''A'' 10 None) \<noteq> downloads_7d (paper ''B'' 0 None)
   \<and> downloads_7d (paper ''B'' 0 None) \<le> downloads_7d (paper ''A'' 10 None)
   \<and> (\<exists>sa sb.
         computeEngagementScore jan10 UTC (downloads_7d (paper ''B'' 0 None))
           (github_repo_count (paper ''B'' 0 None)) [paper ''A'' 10 None, paper ''B'' 0 None]
           (published_at (paper ''B'' 0 None)) = Some sa
       \<and> computeEngagementScore (jan10 + day) UTC (downloads_7d (paper ''A'' 10 None))
           (github_repo_count (paper ''A'' 10 None)) [paper ''A'' 10 None, paper ''B'' 0 None]
           (published_at (paper ''A'' 10 None)) = Some sb
       \<and> sa \<le> sb)"
proof -
  let ?A = "paper ''A'' 10 None" and ?B = "paper ''B'' 0 None"
  have nonneg: "\<forall>m\<in>set [?A, ?B]. 0 \<le> downloads_7d m" by simp
  have differ: "\<exists>m\<in>set [?A, ?B]. \<exists>m'\<in>set [?A, ?B]. downloads_7d m \<noteq> downloads_7d m'"
    by (intro bexI [of _ ?A] bexI [of _ ?B]) simp_all
  have a: "?B \<in> set [?A, ?B]" and b: "?A \<in> set [?A, ?B]" by simp_all
  have le: "downloads_7d ?B \<le> downloads_7d ?A" by simp
  from nonneg le
    engagement_score_monotone [OF nonneg differ a b le, of jan10 UTC "jan10 + day" UTC]
  show ?thesis by simp
qed

text \<open>
  C3, as amended. For every batch of non-negative counts with at least one nonzero count,
  an item with the largest count scores exactly 1, and an item with the smallest count
  scores its count divided by the largest count (the lower end of the range is the
  floor 0, not the smallest count); that score is 0 exactly when its count is 0.
\<close>

theorem max_citation_scores_one_min_scores_ratio:
  assumes nonneg: "\<forall>m\<in>set allMetrics. 0 \<le> downloads_7d m"
    and nonzero: "\<exists>m\<in>set allMetrics. downloads_7d m \<noteq> 0"
    and hi: "hi \<in> set allMetrics"
    and hi_max: "\<forall>m\<in>set allMetrics. downloads_7d m \<le> downloads_7d hi"
    and lo: "lo \<in> set allMetrics"
    and lo_min: "\<forall>m\<in>set allMetrics. downloads_7d lo \<le> downloads_7d m"
  shows "computeEngagementScore now tz (downloads_7d hi) (github_repo_count hi) allMetrics
           (published_at hi) = Some 1
       \<and> computeEngagementScore now' tz' (downloads_7d lo) (github_repo_count lo) allMetrics
           (published_at lo) = Some (downloads_7d lo / downloads_7d hi)
       \<and> (computeEngagementScore now' tz' (downloads_7d lo) (github_repo_count lo) allMetrics
           (published_at lo) = Some 0 \<longleftrightarrow> downloads_7d lo = 0)"
proof -
  let ?C = "downloads_7d ` set allMetrics"
  from nonzero obtain m where m: "m \<in> set allMetrics" "downloads_7d m \<noteq> 0" by blast
  with nonneg have "0 < downloads_7d m" by (metis order.order_iff_strict)
  with m have pos: "\<exists>m\<in>set allMetrics. 0 < downloads_7d m" by blast
  then have mpos: "0 < Max ?C" using Max_counts_pos by blast
  have mx: "Max ?C = downloads_7d hi"
    using hi hi_max by (intro Max_eqI) auto
  from mpos mx show ?thesis
    by (simp add: primary_path [OF pos nonneg])
qed

theorem max_citation_scores_one_min_scores_ratio_witness:
  "list_all (\<lambda>m. 0 \<le> downloads_7d m) [paper ''A'' 10 None, paper ''B'' 0 None, paper ''C'' 5 None]
   \<and> downloads_7d (paper ''A'' 10 None) \<noteq> 0
   \<and> list_all (\<lambda>m. downloads_7d m \<le> downloads_7d (paper ''A'' 10 None))
        [paper ''A'' 10 None, paper ''B'' 0 None, paper ''C'' 5 None]
   \<and> list_all (\<lambda>m. downloads_7d (paper ''B'' 0 None) \<le> downloads_7d m)
        [paper ''A'' 10 None, paper ''B'' 0 None, paper ''C'' 5 None]
   \<and> computeEngagementScore jan10 UTC (downloads_7d (paper ''A'' 10 None))
        (github_repo_count (paper ''A'' 10 None))
        [paper ''A'' 10 None, paper ''B'' 0 None, paper ''C'' 5 None]
        (published_at (paper ''A'' 10 None)) = Some 1
   \<and> computeEngagementScore jan10 UTC (downloads_7d (paper ''B'' 0 None))
        (github_repo_count (paper ''B'' 0 None))
        [paper ''A'' 10 None, paper ''B'' 0 None, paper ''C'' 5 None]
        (published_at (paper ''B'' 0 None)) = Some 0"
proof -
  let ?A = "paper ''A'' 10 None" and ?B = "paper ''B'' 0 None" and ?C = "paper ''C'' 5 None"
  have nonneg: "\<forall>m\<in>set [?A, ?B, ?C]. 0 \<le> downloads_7d m" by simp
  have nonzero: "\<exists>m\<in>set [?A, ?B, ?C]. downloads_7d m \<noteq> 0"
    by (intro bexI [of _ ?A]) simp_all
  have hi: "?A \<in> set [?A, ?B, ?C]" and lo: "?B \<in> set [?A, ?B, ?C]" by simp_all
  have hi_max: "\<forall>m\<in>set [?A, ?B, ?C]. downloads_7d m \<le> downloads_7d ?A" by simp
  have lo_min: "\<forall>m\<in>set [?A, ?B, ?C]. downloads_7d ?B \<le> downloads_7d m" by simp
  from max_citation_scores_one_min_scores_ratio
         [OF nonneg nonzero hi hi_max lo lo_min, of jan10 UTC jan10 UTC]
  show ?thesis by simp
qed

text \<open>
  C3 as stated fails on the batch of counts 10 and 5: the item with the smallest count,
  5, differs from the largest and scores \<open>1 / 2\<close>, not 0.
\<close>

theorem min_citation_score_not_zero_counterexample:
  "downloads_7d (paper ''A'' 10 None) \<noteq> 0
   \<and> downloads_7d (paper ''B'' 5 None) \<le> downloads_7d (paper ''A'' 10 None)
   \<and> downloads_7d (paper ''B'' 5 None) \<noteq> downloads_7d (paper ''A'' 10 None)
   \<and> computeEngagementScore jan10 UTC (downloads_7d (paper ''B'' 5 None))
        (github_repo_count (paper ''B'' 5 None)) [paper ''A'' 10 None, paper ''B'' 5 None]
        (published_at (paper ''B'' 5 None)) = Some (1 / 2)
   \<and> Some (1 / 2) \<noteq> Some (0 :: number)"
  by (simp add: computeEngagementScore_def normalize_value_def js_div_def)

text \<open>
  C4. What the code returns on the full tie: in a batch of two items with count 0 and the
  same publication instant, the cascade reaches the positional rule, but the index is
  that of the first metric whose count equals the count looked for, which is index 0 for
  both items. The first item scores 1 and so does the second, for every clock reading and
  time zone. A batch of one item with count 0 scores 0.
\<close>

theorem full_tie_both_items_score_one:
  "computeEngagementScore now tz (downloads_7d (paper a 0 (Some t)))
     (github_repo_count (paper a 0 (Some t)))
     [paper a 0 (Some t), paper b 0 (Some t)] (published_at (paper a 0 (Some t))) = Some 1
   \<and> computeEngagementScore now tz (downloads_7d (paper b 0 (Some t)))
     (github_repo_count (paper b 0 (Some t)))
     [paper a 0 (Some t), paper b 0 (Some t)] (published_at (paper b 0 (Some t))) = Some 1
   \<and> computeEngagementScore now tz (downloads_7d (paper a 0 t'))
     (github_repo_count (paper a 0 t')) [paper a 0 t'] (published_at (paper a 0 t')) = Some 0"
proof -
  obtain r where r: "recencyScore now t = Some r" by (simp add: recencyScore_closed)
  then have "0 < r" by (rule recencyScore_pos)
  with r have two:
    "computeEngagementScore now tz 0 0 [paper a 0 (Some t), paper b 0 (Some t)] p = Some 1" for p
    by (simp add: computeEngagementScore_def recencyFallback_def timeOfDayTiebreak_def
        indexRule_def normalize_value_def js_div_def)
  have one: "computeEngagementScore now tz 0 0 [paper a 0 t'] t' = Some 0"
  proof (cases t')
    case None
    then show ?thesis
      by (simp add: computeEngagementScore_def recencyFallback_def indexRule_def
          finalFallback_def)
  next
    case (Some u)
    obtain q where q: "recencyScore now u = Some q" by (simp add: recencyScore_closed)
    then have "0 < q" by (rule recencyScore_pos)
    with q Some show ?thesis
      by (simp add: computeEngagementScore_def recencyFallback_def timeOfDayTiebreak_def
          indexRule_def finalFallback_def normalize_value_def js_div_def)
  qed
  from two one show ?thesis by simp
qed

text \<open>
  C5. What the code returns on three items with count 0 published one, two and three days
  before the clock reading, in the order newest first in which
  \<open>computeEngagementScoresForDate\<close> passes them: the current metric of all three calls is
  the first metric of the batch, the newest, so all three items score 1.
\<close>

theorem three_day_batch_all_score_one:
  "computeEngagementScore jan10 UTC (downloads_7d (paper ''A'' 0 (Some (jan10 - day))))
     (github_repo_count (paper ''A'' 0 (Some (jan10 - day))))
     [paper ''A'' 0 (Some (jan10 - day)), paper ''B'' 0 (Some (jan10 - 2 * day)),
      paper ''C'' 0 (Some (jan10 - 3 * day))]
     (published_at (paper ''A'' 0 (Some (jan10 - day)))) = Some 1
   \<and> computeEngagementScore jan10 UTC (downloads_7d (paper ''B'' 0 (Some (jan10 - 2 * day))))
     (github_repo_count (paper ''B'' 0 (Some (jan10 - 2 * day))))
     [paper ''A'' 0 (Some (jan10 - day)), paper ''B'' 0 (Some (jan10 - 2 * day)),
      paper ''C'' 0 (Some (jan10 - 3 * day))]
     (published_at (paper ''B'' 0 (Some (jan10 - 2 * day)))) = Some 1
   \<and> computeEngagementScore jan10 UTC (downloads_7d (paper ''C'' 0 (Some (jan10 - 3 * day))))
     (github_repo_count (paper ''C'' 0 (Some (jan10 - 3 * day))))
     [paper ''A'' 0 (Some (jan10 - day)), paper ''B'' 0 (Some (jan10 - 2 * day)),
      paper ''C'' 0 (Some (jan10 - 3 * day))]
     (published_at (paper ''C'' 0 (Some (jan10 - 3 * day)))) = Some 1"
  by code_simp

text \<open>
  C6, as amended. The result of \<open>computeEngagementScore\<close> does not depend on its
  \<open>publishedAt\<close> argument (nor on \<open>githubRepoCount\<close>): the current item is the first
  metric of the batch whose count equals \<open>downloads7d\<close>. The result is a function of
  \<open>downloads7d\<close>, the batch and the clock reading and time zone of the call: at one
  clock reading, in a batch whose counts are all 0, any two items receive equal scores,
  whatever their own publication dates and identities.
\<close>

theorem score_ignores_publishedAt_and_item:
  "computeEngagementScore now tz d g ms p = computeEngagementScore now tz d g' ms p'
   \<and> ((\<forall>m\<in>set ms. downloads_7d m = 0) \<longrightarrow>
        (\<forall>a\<in>set ms. \<forall>b\<in>set ms.
           computeEngagementScore now tz (downloads_7d a) (github_repo_count a) ms (published_at a)
         = computeEngagementScore now tz (downloads_7d b) (github_repo_count b) ms (published_at b)))"
  by (simp add: computeEngagementScore_def)

theorem score_ignores_publishedAt_and_item_witness:
  "list_all (\<lambda>m. downloads_7d m = 0)
     [paper ''A'' 0 (Some (jan10 - day)), paper ''B'' 0 (Some (jan10 - 2 * day))]
   \<and> published_at (paper ''A'' 0 (Some (jan10 - day)))
       \<noteq> published_at (paper ''B'' 0 (Some (jan10 - 2 * day)))
   \<and> computeEngagementScore jan10 UTC (downloads_7d (paper ''A'' 0 (Some (jan10 - day))))
       (github_repo_count (paper ''A'' 0 (Some (jan10 - day))))
       [paper ''A'' 0 (Some (jan10 - day)), paper ''B'' 0 (Some (jan10 - 2 * day))]
       (published_at (paper ''A'' 0 (Some (jan10 - day))))
     = computeEngagementScore jan10 UTC (downloads_7d (paper ''B'' 0 (Some (jan10 - 2 * day))))
       (github_repo_count (paper ''B'' 0 (Some (jan10 - 2 * day))))
       [paper ''A'' 0 (Some (jan10 - day)), paper ''B'' 0 (Some (jan10 - 2 * day))]
       (published_at (paper ''B'' 0 (Some (jan10 - 2 * day))))"
proof -
  let ?A = "paper ''A'' 0 (Some (jan10 - day))" and ?B = "paper ''B'' 0 (Some (jan10 - 2 * day))"
  have zero: "\<forall>m\<in>set [?A, ?B]. downloads_7d m = 0" by simp
  have a: "?A \<in> set [?A, ?B]" and b: "?B \<in> set [?A, ?B]" by simp_all
  have differ: "published_at ?A \<noteq> published_at ?B" by (simp add: day_def)
  from score_ignores_publishedAt_and_item [where now = jan10 and tz = UTC and ms = "[?A, ?B]"]
    zero a b
  have "computeEngagementScore jan10 UTC (downloads_7d ?A) (github_repo_count ?A) [?A, ?B]
          (published_at ?A)
        = computeEngagementScore jan10 UTC (downloads_7d ?B) (github_repo_count ?B) [?A, ?B]
          (published_at ?B)"
    by blast
  with zero differ show ?thesis by (simp add: list_all_iff)
qed

text \<open>
  C6 as stated fails because the fallback reads the clock: the same count and the same
  batch (items published two days, one day and three days before 2024-01-10) give
  \<open>1 / 3\<close> when the clock reads 2024-01-10 and \<open>3 / 8\<close> a day later.
\<close>

theorem score_depends_on_clock_counterexample:
  "computeEngagementScore jan10 UTC 0 0
     [paper ''A'' 0 (Some (jan10 - 2 * day)), paper ''B'' 0 (Some (jan10 - day)),
      paper ''C'' 0 (Some (jan10 - 3 * day))] None = Some (1 / 3)
   \<and> computeEngagementScore (jan10 + day) UTC 0 0
     [paper ''A'' 0 (Some (jan10 - 2 * day)), paper ''B'' 0 (Some (jan10 - day)),
      paper ''C'' 0 (Some (jan10 - 3 * day))] None = Some (3 / 8)
   \<and> Some (1 / 3) \<noteq> Some (3 / 8 :: number)"
  by code_simp




text \<open>
  C8. \<open>normalize(value, min, max)\<close> returns 0 when \<open>max = min\<close> or \<open>max = 0\<close>, the
  degenerate cases, which come first; otherwise, when \<open>max > min\<close>, it returns
  \<open>(value - min) / (max - min)\<close>.
\<close>

theorem normalize_value_cases:
  "(minv < maxv \<and> maxv \<noteq> 0 \<longrightarrow> normalize_value v minv maxv = Some ((v - minv) / (maxv - minv)))
   \<and> (maxv = minv \<or> maxv = 0 \<longrightarrow> normalize_value v minv maxv = Some 0)"
  by (auto simp: normalize_value_def js_div_def)

theorem normalize_value_cases_witness:
  "((0::number) < 10 \<and> (10::number) \<noteq> 0) \<and> normalize_value 5 0 10 = Some (1 / 2)
   \<and> normalize_value 7 3 3 = Some 0 \<and> normalize_value 7 (- 3) 0 = Some 0"
  using normalize_value_cases [of 0 10 5] normalize_value_cases [of 3 3 7]
    normalize_value_cases [of "- 3" 0 7]
  by simp

text \<open>
  C9. In \<open>computeEngagementScoresForDate\<close>, on a batch that the engine's bound admits
  and whatever the store answers to each write: a score is computed for every item of
  the batch, with the item's key; one write is requested for every item, in order, each
  against the store as the earlier writes left it, and the store becomes what that write
  returned, whether the earlier writes succeeded or failed; and the console receives
  exactly one line, with the item's key, for each write that the store refused.
\<close>

theorem write_failure_does_not_abort_batch:
  assumes "length metricsWithDates < maxArgs"
  shows "\<exists>updates.
      computeEngagementScoresForDate_tail maxArgs clock tz db_update metricsWithDates db
        = Inr (update_loop db_update updates (initial_world db))
    \<and> length updates = length metricsWithDates
    \<and> (\<forall>k<length metricsWithDates.
          update_id (updates ! k) = metric_id (metricsWithDates ! k)
        \<and> computeEngagementScore (clock k) tz (downloads_7d (metricsWithDates ! k))
            (github_repo_count (metricsWithDates ! k)) metricsWithDates
            (published_at (metricsWithDates ! k))
          = Some (update_engagement_score (updates ! k)))
    \<and> length (requests (update_loop db_update updates (initial_world db))) = length updates
    \<and> (\<forall>k<length updates.
          requests (update_loop db_update updates (initial_world db)) ! k
            = (updates ! k,
               fst (db_update (store (update_loop db_update (take k updates) (initial_world db)))
                     (update_id (updates ! k)) (update_engagement_score (updates ! k))))
        \<and> store (update_loop db_update (take (Suc k) updates) (initial_world db))
            = snd (db_update (store (update_loop db_update (take k updates) (initial_world db)))
                    (update_id (updates ! k)) (update_engagement_score (updates ! k))))
    \<and> console_error (update_loop db_update updates (initial_world db))
        = reported (requests (update_loop db_update updates (initial_world db)))"
proof -
  from computeUpdates_within_limit [OF assms, of clock tz 0 metricsWithDates, simplified]
  obtain updates where u:
    "computeUpdates maxArgs clock tz metricsWithDates 0 metricsWithDates = Inr updates"
    "length updates = length metricsWithDates"
    "\<forall>k<length metricsWithDates.
          update_id (updates ! k) = metric_id (metricsWithDates ! k)
        \<and> computeEngagementScore (clock k) tz (downloads_7d (metricsWithDates ! k))
            (github_repo_count (metricsWithDates ! k)) metricsWithDates
            (published_at (metricsWithDates ! k))
          = Some (update_engagement_score (updates ! k))"
    by (elim exE conjE)
  have w0: "requests (initial_world db) = []" "console_error (initial_world db) = []"
    by (simp_all add: initial_world_def)
  have run: "computeEngagementScoresForDate_tail maxArgs clock tz db_update metricsWithDates db
        = Inr (update_loop db_update updates (initial_world db))"
    by (simp add: computeEngagementScoresForDate_tail_def u(1))
  have len: "length (requests (update_loop db_update updates (initial_world db))) = length updates"
    by (simp add: update_loop_requests_length w0)
  have each: "\<forall>k<length updates.
          requests (update_loop db_update updates (initial_world db)) ! k
            = (updates ! k,
               fst (db_update (store (update_loop db_update (take k updates) (initial_world db)))
                     (update_id (updates ! k)) (update_engagement_score (updates ! k))))
        \<and> store (update_loop db_update (take (Suc k) updates) (initial_world db))
            = snd (db_update (store (update_loop db_update (take k updates) (initial_world db)))
                    (update_id (updates ! k)) (update_engagement_score (updates ! k)))"
  proof (intro allI impI conjI)
    fix k assume k: "k < length updates"
    show "requests (update_loop db_update updates (initial_world db)) ! k
            = (updates ! k,
               fst (db_update (store (update_loop db_update (take k updates) (initial_world db)))
                     (update_id (updates ! k)) (update_engagement_score (updates ! k))))"
      by (rule update_loop_request_nth [OF k w0(1)])
    show "store (update_loop db_update (take (Suc k) updates) (initial_world db))
            = snd (db_update (store (update_loop db_update (take k updates) (initial_world db)))
                    (update_id (updates ! k)) (update_engagement_score (updates ! k)))"
      by (rule update_loop_store_step [OF k])
  qed
  have con: "console_error (update_loop db_update updates (initial_world db))
        = reported (requests (update_loop db_update updates (initial_world db)))"
    by (rule update_loop_console [OF w0])
  show ?thesis
    by (rule exI [of _ updates]) (intro conjI run u(2) u(3) len each con)
qed


theorem write_failure_does_not_abort_batch_witness:
  "length [row 1 ''A'' 10 None, row 2 ''B'' 5 None] < (125000::nat)
   \<and> (\<exists>updates.
        computeEngagementScoresForDate_tail 125000 tick UTC (table_update [1])
          [row 1 ''A'' 10 None, row 2 ''B'' 5 None] [(1, 0), (2, 0)]
          = Inr (update_loop (table_update [1]) updates (initial_world [(1, 0), (2, 0)]))
      \<and> length updates = 2
      \<and> length (requests (update_loop (table_update [1]) updates
            (initial_world [(1, 0), (2, 0)]))) = 2
      \<and> console_error (update_loop (table_update [1]) updates (initial_world [(1, 0), (2, 0)]))
          = reported (requests (update_loop (table_update [1]) updates
              (initial_world [(1, 0), (2, 0)]))))"
proof -
  have small: "length [row 1 ''A'' 10 None, row 2 ''B'' 5 None] < (125000::nat)" by simp
  from write_failure_does_not_abort_batch [OF small, of tick UTC "table_update [1]" "[(1, 0), (2, 0)]"]
  obtain updates where
    "computeEngagementScoresForDate_tail 125000 tick UTC (table_update [1])
          [row 1 ''A'' 10 None, row 2 ''B'' 5 None] [(1, 0), (2, 0)]
          = Inr (update_loop (table_update [1]) updates (initial_world [(1, 0), (2, 0)]))"
    "length updates = length [row 1 ''A'' 10 None, row 2 ''B'' 5 None]"
    "length (requests (update_loop (table_update [1]) updates
            (initial_world [(1, 0), (2, 0)]))) = length updates"
    "console_error (update_loop (table_update [1]) updates (initial_world [(1, 0), (2, 0)]))
          = reported (requests (update_loop (table_update [1]) updates
              (initial_world [(1, 0), (2, 0)])))"
    by (elim exE conjE)
  with small show ?thesis
    by (intro conjI exI [of _ updates]) simp_all
qed

text \<open>
  C10. The score does not depend on the repository-mention count: two calls that differ
  only in \<open>githubRepoCount\<close> return the same result.
\<close>

theorem score_independent_of_githubRepoCount:
  "computeEngagementScore now tz d g ms p = computeEngagementScore now tz d g' ms p"
  by (simp add: computeEngagementScore_def)

end
